theory Spec2Isabelle
  imports Main
begin

section \<open>The study session of StudyModeScreen\<close>

text \<open>
  The component keeps five pieces of React state that matter to the card queue:
  \<^verbatim>\<open>currentIndex\<close>, \<^verbatim>\<open>isFlipped\<close>, \<^verbatim>\<open>studyCards\<close>, \<^verbatim>\<open>reviewQueue\<close> and
  \<^verbatim>\<open>completedCards\<close>. The prop \<^verbatim>\<open>cards\<close> is the deck handed in by the parent; it is an
  argument of every handler below. The sixth state, \<^verbatim>\<open>autoFlipTimer\<close>, is the handle of
  a browser timer; it is added to the five in the section on the reveal timer. The fields
  \<^verbatim>\<open>id\<close>, \<^verbatim>\<open>front\<close> and \<^verbatim>\<open>back\<close> of the interface \<^verbatim>\<open>Flashcard\<close> are \<open>card_id\<close>,
  \<open>card_front\<close> and \<open>card_back\<close> here.
\<close>

record flashcard =
  card_id :: string
  card_front :: string
  card_back :: string
  mastered :: bool

record session =
  currentIndex :: nat
  isFlipped :: bool
  studyCards :: "flashcard list"
  reviewQueue :: "flashcard list"
  completedCards :: "flashcard list"

text \<open>
  The two failure conditions the specification names. No statement of the component
  throws, so no definition below produces either of them.
\<close>

datatype session_error = EmptyQueue | NoCurrentCard

text \<open>
  What one handler call leaves behind: the state of the next render, and the argument of
  \<^verbatim>\<open>onComplete\<close> when the handler called it.
\<close>

type_synonym outcome = "session \<times> flashcard list option"

text \<open>A JavaScript array read: \<^verbatim>\<open>undefined\<close> (here \<open>None\<close>) outside the array.\<close>

definition at_index :: "'a list \<Rightarrow> nat \<Rightarrow> 'a option" where
  "at_index xs i = (if i < length xs then Some (xs ! i) else None)"

text \<open>The values of the \<^verbatim>\<open>useState\<close> calls at mount.\<close>

definition initial :: session where
  "initial = \<lparr>currentIndex = 0, isFlipped = False, studyCards = [], reviewQueue = [],
     completedCards = []\<rparr>"

text \<open>
  The initialisation effect:
  \<^verbatim>\<open>setStudyCards(cards.filter(card => !card.mastered));
  setCompletedCards(cards.filter(card => card.mastered));\<close>
\<close>

definition initEffect :: "flashcard list \<Rightarrow> session \<Rightarrow> session" where
  "initEffect cards s =
     s\<lparr>studyCards := filter (\<lambda>card. \<not> mastered card) cards,
       completedCards := filter (\<lambda>card. mastered card) cards\<rparr>"

definition start :: "flashcard list \<Rightarrow> session" where
  "start cards = initEffect cards initial"

text \<open>\<^verbatim>\<open>const currentCard = studyCards[currentIndex];\<close>\<close>

definition currentCard :: "session \<Rightarrow> session_error + flashcard option" where
  "currentCard s = Inr (at_index (studyCards s) (currentIndex s))"

text \<open>
  \<^verbatim>\<open>cards.map(card => { const completed = completedCards.find(c => c.id === card.id);
  return completed || card; })\<close>
\<close>

definition allUpdatedCards :: "flashcard list \<Rightarrow> flashcard list \<Rightarrow> flashcard list" where
  "allUpdatedCards cards completed =
     map (\<lambda>card. case find (\<lambda>c. card_id c = card_id card) completed of
                    Some c \<Rightarrow> c | None \<Rightarrow> card) cards"

text \<open>
  A handler runs on the values of the render that created it (\<open>r\<close>); the setters it calls
  are queued and applied in call order to give the next render. \<open>p\<close> is the state with the
  updates queued before \<^verbatim>\<open>nextCard\<close> is entered already applied. \<^verbatim>\<open>nextCard\<close> reads
  \<open>r\<close> and writes \<open>p\<close>:
  \<^verbatim>\<open>setIsFlipped(false);
  if (currentIndex + 1 < studyCards.length) { setCurrentIndex(currentIndex + 1); }
  else if (reviewQueue.length > 0) { setStudyCards(reviewQueue); setReviewQueue([]);
    setCurrentIndex(0); }
  else { onComplete(allUpdatedCards); }\<close>
\<close>

definition nextCard :: "flashcard list \<Rightarrow> session \<Rightarrow> session \<Rightarrow> session_error + outcome" where
  "nextCard cards r p =
     (let p1 = p\<lparr>isFlipped := False\<rparr> in
      if currentIndex r + 1 < length (studyCards r) then
        Inr (p1\<lparr>currentIndex := currentIndex r + 1\<rparr>, None)
      else if length (reviewQueue r) > 0 then
        Inr (p1\<lparr>studyCards := reviewQueue r, reviewQueue := [], currentIndex := 0\<rparr>, None)
      else
        Inr (p1, Some (allUpdatedCards cards (completedCards r))))"

text \<open>
  \<^verbatim>\<open>handleKnown\<close>: returns at once without a current card; otherwise queues
  \<^verbatim>\<open>setCompletedCards(prev => [...prev, updatedCard])\<close> and either completes the session
  itself (last card, empty review queue) or calls \<^verbatim>\<open>nextCard\<close>.
\<close>

definition handleKnown :: "flashcard list \<Rightarrow> session \<Rightarrow> session_error + outcome" where
  "handleKnown cards r =
     (case currentCard r of
        Inl e \<Rightarrow> Inl e
      | Inr None \<Rightarrow> Inr (r, None)
      | Inr (Some cur) \<Rightarrow>
          (let updatedCard = cur\<lparr>mastered := True\<rparr>;
               p = r\<lparr>completedCards := completedCards r @ [updatedCard]\<rparr> in
           if currentIndex r + 1 \<ge> length (studyCards r) \<and> length (reviewQueue r) = 0 then
             Inr (p\<lparr>isFlipped := False\<rparr>,
                  Some (map (\<lambda>card. if card_id card = card_id cur then updatedCard
                                     else (case find (\<lambda>c. card_id c = card_id card)
                                                  (completedCards r) of
                                             Some c \<Rightarrow> c | None \<Rightarrow> card)) cards))
           else nextCard cards r p))"

text \<open>
  \<^verbatim>\<open>handleReview\<close>: returns at once without a current card; otherwise queues
  \<^verbatim>\<open>setReviewQueue(prev => [...prev, currentCard])\<close> and calls \<^verbatim>\<open>nextCard\<close>.
\<close>

definition handleReview :: "flashcard list \<Rightarrow> session \<Rightarrow> session_error + outcome" where
  "handleReview cards r =
     (case currentCard r of
        Inl e \<Rightarrow> Inl e
      | Inr None \<Rightarrow> Inr (r, None)
      | Inr (Some cur) \<Rightarrow> nextCard cards r (r\<lparr>reviewQueue := reviewQueue r @ [cur]\<rparr>))"

text \<open>
  \<^verbatim>\<open>handleCardFlip\<close>, as far as the five states go: \<^verbatim>\<open>setIsFlipped(!isFlipped)\<close>. Its
  first statement, which clears the timer, is \<open>clearAutoFlipTimer\<close> below.
\<close>

definition handleCardFlip :: "session \<Rightarrow> session_error + outcome" where
  "handleCardFlip r = Inr (r\<lparr>isFlipped := \<not> isFlipped r\<rparr>, None)"

text \<open>\<^verbatim>\<open>handleRestart\<close> sets all five states from the prop \<^verbatim>\<open>cards\<close>.\<close>

definition handleRestart :: "flashcard list \<Rightarrow> session \<Rightarrow> session_error + outcome" where
  "handleRestart cards r =
     Inr (r\<lparr>currentIndex := 0, isFlipped := False,
            studyCards := filter (\<lambda>card. \<not> mastered card) cards,
            reviewQueue := [],
            completedCards := filter (\<lambda>card. mastered card) cards\<rparr>, None)"

text \<open>
  The user's actions on the screen, and a session driven by a list of them. The screen
  offers "I know this" and "review again" only while the card is flipped; \<open>step\<close> does
  not ask for that, so what is proved of every list of actions holds of those the user can
  produce. The examples flip the card before answering.
\<close>

datatype action = Flip | Known | Review | Restart

fun step :: "flashcard list \<Rightarrow> session \<Rightarrow> action \<Rightarrow> session_error + outcome" where
  "step cards s Flip = handleCardFlip s"
| "step cards s Known = handleKnown cards s"
| "step cards s Review = handleReview cards s"
| "step cards s Restart = handleRestart cards s"

text \<open>
  \<open>run\<close> returns the last state and every list handed to \<^verbatim>\<open>onComplete\<close> on the way,
  oldest first.
\<close>

fun run :: "flashcard list \<Rightarrow> session \<Rightarrow> action list \<Rightarrow>
    session_error + (session \<times> flashcard list list)" where
  "run cards s [] = Inr (s, [])"
| "run cards s (a # as) =
     (case step cards s a of
        Inl e \<Rightarrow> Inl e
      | Inr (s', out) \<Rightarrow>
          (case run cards s' as of
             Inl e \<Rightarrow> Inl e
           | Inr (t, outs) \<Rightarrow> Inr (t, (case out of None \<Rightarrow> [] | Some l \<Rightarrow> [l]) @ outs)))"

text \<open>The index points into the study cards, unless there are none.\<close>

definition well_indexed :: "session \<Rightarrow> bool" where
  "well_indexed s = (studyCards s = [] \<or> currentIndex s < length (studyCards s))"


text \<open>Three cards for the examples: two to learn and one that comes in mastered.\<close>

definition card_a :: flashcard where
  "card_a = \<lparr>card_id = ''a'', card_front = ''2 + 2'', card_back = ''4'', mastered = False\<rparr>"

definition card_b :: flashcard where
  "card_b = \<lparr>card_id = ''b'', card_front = ''3 * 3'', card_back = ''9'', mastered = False\<rparr>"

definition card_c :: flashcard where
  "card_c = \<lparr>card_id = ''c'', card_front = ''7 - 2'', card_back = ''5'', mastered = True\<rparr>"

lemmas session_defs = start_def initEffect_def initial_def handleReview_def handleKnown_def
  handleCardFlip_def handleRestart_def currentCard_def at_index_def nextCard_def
  allUpdatedCards_def Let_def

section \<open>The reveal timer of StudyModeScreen\<close>

text \<open>
  The screen is the session together with the state \<^verbatim>\<open>autoFlipTimer\<close> and what the
  browser holds for it: the timeouts set and neither fired nor cleared (handle and due
  time, in milliseconds), the next handle \<^verbatim>\<open>setTimeout\<close> will return, and the clock.
\<close>

record screen =
  view :: session
  autoFlipTimer :: "nat option"
  timers :: "(nat \<times> nat) list"
  nextHandle :: nat
  now_ms :: nat

definition AUTO_FLIP_DELAY :: nat where
  "AUTO_FLIP_DELAY = 5000"

definition clearTimeout :: "nat \<Rightarrow> (nat \<times> nat) list \<Rightarrow> (nat \<times> nat) list" where
  "clearTimeout h ts = filter (\<lambda>p. fst p \<noteq> h) ts"

text \<open>
  \<^verbatim>\<open>if (autoFlipTimer) { clearTimeout(autoFlipTimer); setAutoFlipTimer(null); }\<close>, the
  opening of both the effect and \<^verbatim>\<open>handleCardFlip\<close>.
\<close>

definition clearAutoFlipTimer :: "screen \<Rightarrow> screen" where
  "clearAutoFlipTimer w =
     (case autoFlipTimer w of
        None \<Rightarrow> w
      | Some h \<Rightarrow> w\<lparr>timers := clearTimeout h (timers w), autoFlipTimer := None\<rparr>)"

text \<open>
  The effect, run on the values of the render it belongs to (\<open>w\<close>): after clearing,
  \<^verbatim>\<open>if (currentCard && !isFlipped) { const timer = setTimeout(() => { setIsFlipped(true); },
  AUTO_FLIP_DELAY); setAutoFlipTimer(timer); }\<close>. Its cleanup clears the handle the same
  run has cleared already and is left out.
\<close>

definition autoFlipEffect :: "screen \<Rightarrow> screen" where
  "autoFlipEffect w =
     (let w1 = clearAutoFlipTimer w in
      if (case currentCard (view w) of Inr (Some c) \<Rightarrow> True | _ \<Rightarrow> False) \<and> \<not> isFlipped (view w)
      then w1\<lparr>timers := timers w1 @ [(nextHandle w1, now_ms w1 + AUTO_FLIP_DELAY)],
              autoFlipTimer := Some (nextHandle w1),
              nextHandle := nextHandle w1 + 1\<rparr>
      else w1)"

text \<open>
  The dependency list of the effect is \<^verbatim>\<open>[currentIndex, isFlipped]\<close>: after a render the
  effect runs when one of the two differs from the render before (\<open>prev\<close>).
\<close>

definition commit :: "session \<Rightarrow> screen \<Rightarrow> screen" where
  "commit prev w =
     (if currentIndex (view w) \<noteq> currentIndex prev \<or> isFlipped (view w) \<noteq> isFlipped prev
      then autoFlipEffect w else w)"

text \<open>
  Mounting at time \<open>t\<close>: the first render has the \<^verbatim>\<open>useState\<close> values; both effects run
  on it, and the updates the initialisation effect queued give the second render, in
  which neither dependency of the timer effect has changed.
\<close>

definition mount :: "nat \<Rightarrow> flashcard list \<Rightarrow> screen" where
  "mount t cards =
     (let w = autoFlipEffect \<lparr>view = initial, autoFlipTimer = None, timers = [],
                nextHandle = 1, now_ms = t\<rparr>
      in w\<lparr>view := initEffect cards (view w)\<rparr>)"

text \<open>
  What happens to a mounted screen: the user acts, time passes (not beyond the moment a
  timeout is due), or the browser runs the callback of a due timeout,
  \<^verbatim>\<open>setIsFlipped(true)\<close>. \<open>None\<close> says that the event cannot happen in the state.
\<close>

datatype event = Act action | Tick nat | Fire

fun occur :: "flashcard list \<Rightarrow> screen \<Rightarrow> event \<Rightarrow> screen option" where
  "occur cards w (Act a) =
     (let w1 = (if a = Flip then clearAutoFlipTimer w else w) in
      case step cards (view w1) a of
        Inl e \<Rightarrow> None
      | Inr (s', out) \<Rightarrow> Some (commit (view w) (w1\<lparr>view := s'\<rparr>)))"
| "occur cards w (Tick dt) =
     (if list_ex (\<lambda>p. snd p < now_ms w + dt) (timers w) then None
      else Some (w\<lparr>now_ms := now_ms w + dt\<rparr>))"
| "occur cards w Fire =
     (case filter (\<lambda>p. snd p \<le> now_ms w) (timers w) of
        [] \<Rightarrow> None
      | p # ps \<Rightarrow>
          Some (commit (view w)
                  (w\<lparr>timers := clearTimeout (fst p) (timers w),
                     view := (view w)\<lparr>isFlipped := True\<rparr>\<rparr>)))"

fun occurs :: "flashcard list \<Rightarrow> screen \<Rightarrow> event list \<Rightarrow> screen option" where
  "occurs cards w [] = Some w"
| "occurs cards w (e # es) =
     (case occur cards w e of None \<Rightarrow> None | Some w' \<Rightarrow> occurs cards w' es)"

definition timer_inv :: "screen \<Rightarrow> bool" where
  "timer_inv w =
     (timers w = [] \<or>
      (\<exists>h d. timers w = [(h, d)] \<and> autoFlipTimer w = Some h \<and> isFlipped (view w) = False))"

text \<open>Whether the screen shows a card with its front up.\<close>

definition front_up :: "session \<Rightarrow> bool" where
  "front_up s = ((case currentCard s of Inr (Some c) \<Rightarrow> True | _ \<Rightarrow> False) \<and> \<not> isFlipped s)"

text \<open>Screens of the examples, with the cards \<open>card_a\<close> and \<open>card_b\<close> to learn.\<close>

definition screen_a_back :: screen where
  "screen_a_back =
     \<lparr>view = \<lparr>currentIndex = 0, isFlipped = True, studyCards = [card_a, card_b],
              reviewQueue = [], completedCards = []\<rparr>,
      autoFlipTimer = None, timers = [], nextHandle = 1, now_ms = 0\<rparr>"

definition screen_b_front :: "nat \<Rightarrow> screen" where
  "screen_b_front t =
     \<lparr>view = \<lparr>currentIndex = 1, isFlipped = False, studyCards = [card_a, card_b],
              reviewQueue = [], completedCards = [card_a\<lparr>mastered := True\<rparr>]\<rparr>,
      autoFlipTimer = Some 1, timers = [(1, 5000)], nextHandle = 2, now_ms = t\<rparr>"

definition screen_b_back :: "nat \<Rightarrow> screen" where
  "screen_b_back t =
     \<lparr>view = \<lparr>currentIndex = 1, isFlipped = True, studyCards = [card_a, card_b],
              reviewQueue = [], completedCards = [card_a\<lparr>mastered := True\<rparr>]\<rparr>,
      autoFlipTimer = None, timers = [], nextHandle = 2, now_ms = t\<rparr>"

lemmas timer_defs = mount_def autoFlipEffect_def clearAutoFlipTimer_def clearTimeout_def
  commit_def AUTO_FLIP_DELAY_def screen_a_back_def screen_b_front_def screen_b_back_def

section \<open>User progress (operations.ts)\<close>

text \<open>
  Rows of the tables \<^verbatim>\<open>user_progress\<close> and \<^verbatim>\<open>decks\<close>, with the column types of the
  interfaces \<^verbatim>\<open>UserProgress\<close> and \<^verbatim>\<open>Deck\<close>. A timestamp is the number of milliseconds
  since the epoch (the value of the \<^verbatim>\<open>Date\<close> it was written from). The columns \<^verbatim>\<open>id\<close>
  and \<^verbatim>\<open>user_id\<close> of a deck are \<open>deck_id\<close> and \<open>deck_user_id\<close> here.
\<close>

record user_progress =
  user_id :: string
  total_cards :: int
  mastered_cards :: int
  current_streak :: int
  longest_streak :: int
  last_study_date :: "int option"
  created_at :: int
  updated_at :: int

record deck_row =
  deck_id :: string
  deck_user_id :: string
  card_count :: int
  mastered_count :: int

record database =
  progress_rows :: "string \<rightharpoonup> user_progress"
  deck_rows :: "deck_row list"

text \<open>
  What a call finds outside the database: the signed-in user (\<^verbatim>\<open>getCurrentUserId\<close>), the
  clock, the offset of the local time zone in milliseconds at each instant (it changes
  where the zone's clocks are put forward or back), whether the read of the call comes
  back without data, and the error of the write, if any. The clock is read several times
  within one call; the readings are taken as one instant.
\<close>

record call_env =
  auth_user :: "string option"
  clock :: int
  tz_offset :: "int \<Rightarrow> int"
  select_fails :: bool
  upsert_error :: "string option"

datatype progress_error = Not_authenticated | Db_error string

text \<open>\<^verbatim>\<open>x || 0\<close> on a number.\<close>

definition or_zero :: "int \<Rightarrow> int" where
  "or_zero x = (if x \<noteq> 0 then x else 0)"

text \<open>
  \<^verbatim>\<open>new Date(t).toDateString()\<close> names the local calendar day of the instant \<open>t\<close>, read
  with the offset the zone has at \<open>t\<close>. The code only compares these strings for equality,
  so the day is given by its number.
\<close>

definition toDateString :: "(int \<Rightarrow> int) \<Rightarrow> int \<Rightarrow> int" where
  "toDateString tz t = (t + tz t) div 86400000"

text \<open>
  The streak block of \<^verbatim>\<open>updateStudyProgress\<close>; the result is
  \<^verbatim>\<open>(newStreak, longestStreak)\<close>.
\<close>

definition streakValues :: "(int \<Rightarrow> int) \<Rightarrow> int \<Rightarrow> user_progress option \<Rightarrow> int \<times> int" where
  "streakValues tz now currentProgress =
     (let newStreak = 1;
          longestStreak = (case currentProgress of None \<Rightarrow> 0
                           | Some cp \<Rightarrow> or_zero (longest_streak cp)) in
      case currentProgress of
        None \<Rightarrow> (newStreak, longestStreak)
      | Some cp \<Rightarrow>
          (case last_study_date cp of
             None \<Rightarrow> (newStreak, longestStreak)
           | Some lastStudy \<Rightarrow>
               if toDateString tz lastStudy = toDateString tz now then
                 (current_streak cp, longestStreak)
               else if toDateString tz lastStudy = toDateString tz (now - 86400000) then
                 (let newStreak = or_zero (current_streak cp) + 1 in
                  if newStreak > longestStreak then (newStreak, newStreak)
                  else (newStreak, longestStreak))
               else (newStreak, longestStreak)))"

text \<open>
  \<^verbatim>\<open>.upsert({...}).select().single()\<close> on \<^verbatim>\<open>user_progress\<close>, whose primary key is
  \<^verbatim>\<open>user_id\<close>: the columns named in the call are written (\<open>cols\<close>), the others keep
  their value, or take the defaults of the schema when the row is new.
\<close>

definition upsert :: "int \<Rightarrow> string \<Rightarrow> (user_progress \<Rightarrow> user_progress) \<Rightarrow> database \<Rightarrow>
    user_progress \<times> database" where
  "upsert now userId cols db =
     (let old = (case progress_rows db userId of
                   Some row \<Rightarrow> row
                 | None \<Rightarrow> \<lparr>user_id = userId, total_cards = 0, mastered_cards = 0,
                             current_streak = 0, longest_streak = 0, last_study_date = None,
                             created_at = now, updated_at = now\<rparr>);
          row = (cols old)\<lparr>updated_at := now\<rparr> in
      (row, db\<lparr>progress_rows := (progress_rows db)(userId \<mapsto> row)\<rparr>))"

definition updateStudyProgress :: "call_env \<Rightarrow> int \<Rightarrow> database \<Rightarrow>
    (progress_error + user_progress) \<times> database" where
  "updateStudyProgress env masteredCount db =
     (case auth_user env of
        None \<Rightarrow> (Inl Not_authenticated, db)
      | Some userId \<Rightarrow>
          (let today = clock env;
               currentProgress = (if select_fails env then None else progress_rows db userId);
               (newStreak, longestStreak) = streakValues (tz_offset env) (clock env) currentProgress
           in case upsert_error env of
                Some msg \<Rightarrow> (Inl (Db_error msg), db)
              | None \<Rightarrow>
                  (let (row, db') = upsert today userId
                         (\<lambda>row. row\<lparr>mastered_cards :=
                                      (case currentProgress of None \<Rightarrow> 0
                                       | Some cp \<Rightarrow> or_zero (mastered_cards cp)) + masteredCount,
                                    current_streak := newStreak,
                                    longest_streak := longestStreak,
                                    last_study_date := Some today\<rparr>) db
                   in (Inr row, db'))))"

text \<open>
  \<^verbatim>\<open>syncUserProgress\<close>: the sums of \<^verbatim>\<open>card_count\<close> and \<^verbatim>\<open>mastered_count\<close> over the
  user's decks, written to \<^verbatim>\<open>total_cards\<close> and \<^verbatim>\<open>mastered_cards\<close>.
\<close>

definition syncUserProgress :: "call_env \<Rightarrow> database \<Rightarrow>
    (progress_error + user_progress) \<times> database" where
  "syncUserProgress env db =
     (case auth_user env of
        None \<Rightarrow> (Inl Not_authenticated, db)
      | Some userId \<Rightarrow>
          (let decks = (if select_fails env then None
                        else Some (filter (\<lambda>d. deck_user_id d = userId) (deck_rows db)));
               totalCards = (case decks of None \<Rightarrow> 0
                  | Some ds \<Rightarrow> or_zero (foldl (\<lambda>sum d. sum + or_zero (card_count d)) 0 ds));
               masteredCards = (case decks of None \<Rightarrow> 0
                  | Some ds \<Rightarrow> or_zero (foldl (\<lambda>sum d. sum + or_zero (mastered_count d)) 0 ds))
           in case upsert_error env of
                Some msg \<Rightarrow> (Inl (Db_error msg), db)
              | None \<Rightarrow>
                  (let (row, db') = upsert (clock env) userId
                         (\<lambda>row. row\<lparr>total_cards := totalCards,
                                    mastered_cards := masteredCards\<rparr>) db
                   in (Inr row, db'))))"

text \<open>Example data: noon (UTC) of 10, 11 and 14 January 2024, a signed-in user, and the
  row \<^verbatim>\<open>getUserProgress\<close> inserts for a new user.\<close>

definition jan10 :: int where "jan10 = 1704888000000"
definition jan11 :: int where "jan11 = 1704974400000"
definition jan14 :: int where "jan14 = 1705233600000"

definition study_env :: "int \<Rightarrow> call_env" where
  "study_env t = \<lparr>auth_user = Some ''u1'', clock = t, tz_offset = (\<lambda>t. 0), select_fails = False,
     upsert_error = None\<rparr>"

definition new_user_row :: user_progress where
  "new_user_row = \<lparr>user_id = ''u1'', total_cards = 0, mastered_cards = 0, current_streak = 0,
     longest_streak = 0, last_study_date = None, created_at = 0, updated_at = 0\<rparr>"

text \<open>
  A zone whose clocks go forward by an hour on 10 March 2024 at 07:00 UTC (from five to
  four hours behind UTC), with a study at 00:15 local time on that day and one at 00:30
  on the next.
\<close>

definition spring_forward :: "int \<Rightarrow> int" where
  "spring_forward t = (if t < 1710054000000 then - 18000000 else - 14400000)"

definition mar10_0015 :: int where "mar10_0015 = 1710047700000"
definition mar11_0030 :: int where "mar11_0030 = 1710131400000"

definition progress_db :: "user_progress \<Rightarrow> database" where
  "progress_db row = \<lparr>progress_rows = [''u1'' \<mapsto> row], deck_rows = []\<rparr>"

definition example_decks :: database where
  "example_decks = \<lparr>progress_rows = Map.empty, deck_rows =
     [\<lparr>deck_id = ''d1'', deck_user_id = ''u1'', card_count = 3, mastered_count = 1\<rparr>,
      \<lparr>deck_id = ''d2'', deck_user_id = ''u1'', card_count = 5, mastered_count = 2\<rparr>,
      \<lparr>deck_id = ''d3'', deck_user_id = ''u2'', card_count = 7, mastered_count = 7\<rparr>]\<rparr>"

lemmas progress_defs = updateStudyProgress_def syncUserProgress_def upsert_def streakValues_def
  toDateString_def or_zero_def Let_def study_env_def new_user_row_def progress_db_def
  jan10_def jan11_def jan14_def example_decks_def spring_forward_def mar10_0015_def
  mar11_0030_def


section \<open>Properties of the study session\<close>

subsection \<open>Handlers always return\<close>

lemma step_total: "\<exists>s' out. step cards s a = Inr (s', out)"
  by (cases a) (auto simp: session_defs)

lemma run_total: "\<exists>t outs. run cards s acts = Inr (t, outs)"
proof (induction acts arbitrary: s)
  case Nil
  show ?case by simp
next
  case (Cons a acts)
  obtain s' out where st: "step cards s a = Inr (s', out)"
    using step_total by blast
  obtain t outs where "run cards s' acts = Inr (t, outs)"
    using Cons.IH by blast
  with st show ?case by simp
qed

lemma run_Cons_Inr:
  assumes "run cards s (a # acts) = Inr (t, outs)"
  obtains s' out outs' where "step cards s a = Inr (s', out)"
    and "run cards s' acts = Inr (t, outs')"
    and "outs = (case out of None \<Rightarrow> [] | Some l \<Rightarrow> [l]) @ outs'"
  using assms by (auto split: sum.splits prod.splits)


subsection \<open>The index stays inside the study cards\<close>

lemma start_well_indexed: "well_indexed (start cards)"
  by (auto simp: well_indexed_def session_defs)

lemma step_well_indexed:
  "well_indexed s \<Longrightarrow> step cards s a = Inr (s', out) \<Longrightarrow> well_indexed s'"
  by (cases a) (auto simp: well_indexed_def session_defs split: if_splits)

lemma run_well_indexed:
  "well_indexed s \<Longrightarrow> run cards s acts = Inr (t, outs) \<Longrightarrow> well_indexed t"
proof (induction acts arbitrary: s outs)
  case Nil
  then show ?case by simp
next
  case (Cons a acts)
  from Cons.prems(2) obtain s' out outs' where st: "step cards s a = Inr (s', out)"
    and rn: "run cards s' acts = Inr (t, outs')"
    by (rule run_Cons_Inr)
  from step_well_indexed[OF Cons.prems(1) st] rn show ?case
    by (rule Cons.IH)
qed


subsection \<open>The current card and the empty queue\<close>

text \<open>
  C7, as the component has it. With no study cards, \<^verbatim>\<open>currentCard\<close> is \<^verbatim>\<open>undefined\<close>
  and \<^verbatim>\<open>handleKnown\<close> returns at once, leaving every state as it was and emitting
  nothing; neither fails. In every state a session reaches from its start with study
  cards present, the index is inside the list and \<^verbatim>\<open>currentCard\<close> is the card at that
  index. In no state at all does \<^verbatim>\<open>currentCard\<close> fail with \<open>EmptyQueue\<close> or
  \<^verbatim>\<open>handleKnown\<close> with \<open>NoCurrentCard\<close>.
\<close>

theorem current_card_or_nothing:
  "(studyCards s = [] \<longrightarrow> currentCard s = Inr None \<and> handleKnown cards s = Inr (s, None)) \<and>
   (run cards (start cards) acts = Inr (t, outs) \<and> studyCards t \<noteq> [] \<longrightarrow>
      currentIndex t < length (studyCards t) \<and>
      currentCard t = Inr (Some (studyCards t ! currentIndex t))) \<and>
   currentCard u \<noteq> Inl EmptyQueue \<and> handleKnown cards u \<noteq> Inl NoCurrentCard"
proof (intro conjI impI)
  assume "studyCards s = []"
  then show "currentCard s = Inr None" by (simp add: currentCard_def at_index_def)
  from \<open>studyCards s = []\<close> show "handleKnown cards s = Inr (s, None)"
    by (simp add: handleKnown_def currentCard_def at_index_def)
next
  assume a: "run cards (start cards) acts = Inr (t, outs) \<and> studyCards t \<noteq> []"
  then have "well_indexed t"
    using run_well_indexed[OF start_well_indexed] by blast
  with a show "currentIndex t < length (studyCards t)"
    by (simp add: well_indexed_def)
  then show "currentCard t = Inr (Some (studyCards t ! currentIndex t))"
    by (simp add: currentCard_def at_index_def)
next
  show "currentCard u \<noteq> Inl EmptyQueue" by (simp add: currentCard_def)
  show "handleKnown cards u \<noteq> Inl NoCurrentCard"
    using step_total[of cards u Known] by auto
qed


theorem current_card_or_nothing_witness:
  "studyCards (start [card_c]) = [] \<and>
   currentCard (start [card_c]) = Inr None \<and>
   handleKnown [card_c] (start [card_c]) = Inr (start [card_c], None) \<and>
   run [card_a, card_b] (start [card_a, card_b]) [Review] =
     Inr (\<lparr>currentIndex = 1, isFlipped = False, studyCards = [card_a, card_b],
            reviewQueue = [card_a], completedCards = []\<rparr>, []) \<and>
   currentCard \<lparr>currentIndex = 1, isFlipped = False, studyCards = [card_a, card_b],
            reviewQueue = [card_a], completedCards = []\<rparr> = Inr (Some card_b)"
  using current_card_or_nothing [where s = "start [card_c]" and cards = "[card_a, card_b]"
      and acts = "[Review]" and outs = "[]"
      and t = "\<lparr>currentIndex = 1, isFlipped = False, studyCards = [card_a, card_b],
        reviewQueue = [card_a], completedCards = []\<rparr>"]
    current_card_or_nothing [where s = "start [card_c]" and cards = "[card_c]"]
  by (simp add: session_defs card_a_def card_b_def card_c_def)

text \<open>
  The claim as worded, that the empty queue makes \<^verbatim>\<open>currentCard\<close> fail with
  \<open>EmptyQueue\<close> and \<^verbatim>\<open>handleKnown\<close> fail with \<open>NoCurrentCard\<close>, is false for the deck
  without cards: both return.
\<close>

theorem empty_queue_no_failure:
  "studyCards (start []) = [] \<and>
   currentCard (start []) = Inr None \<and> currentCard (start []) \<noteq> Inl EmptyQueue \<and>
   handleKnown [] (start []) = Inr (start [], None) \<and>
   handleKnown [] (start []) \<noteq> Inl NoCurrentCard"
  by (simp add: session_defs)

subsection \<open>Restart\<close>

text \<open>
  C8. From any state of the session, whatever sequence of flips, "I know this" and
  "review again" led to it, \<^verbatim>\<open>handleRestart\<close> gives exactly the state the component has
  after mounting on the same \<^verbatim>\<open>cards\<close> prop: index 0, front side up, an empty review
  queue, the unmastered cards of the prop as study cards and its mastered cards as
  completed cards. Nothing of the session's own progress is kept, and nothing is emitted.
\<close>

theorem restart_restores_start:
  "handleRestart cards s = Inr (start cards, None) \<and>
   currentIndex (start cards) = 0 \<and>
   isFlipped (start cards) = False \<and>
   reviewQueue (start cards) = [] \<and>
   studyCards (start cards) = filter (\<lambda>card. \<not> mastered card) cards \<and>
   completedCards (start cards) = filter (\<lambda>card. mastered card) cards"
  by (simp add: handleRestart_def start_def initEffect_def initial_def)

subsection \<open>Advancing the pass\<close>

text \<open>
  What the two handlers do with a current card. \<^verbatim>\<open>handleKnown\<close> follows the three cases
  of the pass-advance rule. \<^verbatim>\<open>handleReview\<close> follows the first case; at the end of a pass
  \<^verbatim>\<open>nextCard\<close> tests the review queue of the render, which does not hold the card being
  deferred, and its \<^verbatim>\<open>setReviewQueue([])\<close> is queued after the handler's append.
\<close>

lemma handleKnown_pass_advance:
  assumes "currentCard s = Inr (Some cur)"
  shows "handleKnown cards s =
     (if currentIndex s + 1 < length (studyCards s) then
        Inr (s\<lparr>completedCards := completedCards s @ [cur\<lparr>mastered := True\<rparr>],
               isFlipped := False, currentIndex := currentIndex s + 1\<rparr>, None)
      else if reviewQueue s \<noteq> [] then
        Inr (s\<lparr>completedCards := completedCards s @ [cur\<lparr>mastered := True\<rparr>],
               isFlipped := False, studyCards := reviewQueue s, reviewQueue := [],
               currentIndex := 0\<rparr>, None)
      else
        Inr (s\<lparr>completedCards := completedCards s @ [cur\<lparr>mastered := True\<rparr>],
               isFlipped := False\<rparr>,
             Some (map (\<lambda>card. if card_id card = card_id cur then cur\<lparr>mastered := True\<rparr>
                                else (case find (\<lambda>c. card_id c = card_id card)
                                             (completedCards s) of
                                        Some c \<Rightarrow> c | None \<Rightarrow> card)) cards)))"
  using assms by (auto simp: handleKnown_def nextCard_def Let_def)

lemma handleReview_within_pass:
  assumes "currentCard s = Inr (Some cur)" and "currentIndex s + 1 < length (studyCards s)"
  shows "handleReview cards s =
     Inr (s\<lparr>reviewQueue := reviewQueue s @ [cur], isFlipped := False,
            currentIndex := currentIndex s + 1\<rparr>, None)"
  using assms by (simp add: handleReview_def nextCard_def Let_def)

lemma handleReview_end_of_pass:
  assumes "currentCard s = Inr (Some cur)" and "\<not> currentIndex s + 1 < length (studyCards s)"
  shows "handleReview cards s =
     (if reviewQueue s \<noteq> [] then
        Inr (s\<lparr>isFlipped := False, studyCards := reviewQueue s, reviewQueue := [],
               currentIndex := 0\<rparr>, None)
      else
        Inr (s\<lparr>reviewQueue := [cur], isFlipped := False\<rparr>,
             Some (allUpdatedCards cards (completedCards s))))"
  using assms by (simp add: handleReview_def nextCard_def Let_def)

text \<open>
  C4. A deck of one card to learn; the user flips it and answers "review again". After
  that the review queue holds the card, so the pass-advance rule asks for a new pass over
  it (study cards = the review queue, review queue empty, index 0). The component instead
  hands the card list to \<^verbatim>\<open>onComplete\<close> and keeps the deferred card in the review queue.
\<close>

theorem review_on_last_card_completes:
  "run [card_a] (start [card_a]) [Flip] =
     Inr (\<lparr>currentIndex = 0, isFlipped = True, studyCards = [card_a],
            reviewQueue = [], completedCards = []\<rparr>, []) \<and>
   handleReview [card_a] \<lparr>currentIndex = 0, isFlipped = True, studyCards = [card_a],
            reviewQueue = [], completedCards = []\<rparr> =
     Inr (\<lparr>currentIndex = 0, isFlipped = False, studyCards = [card_a],
            reviewQueue = [card_a], completedCards = []\<rparr>, Some [card_a])"
  by (simp add: session_defs card_a_def)

subsection \<open>Deferred cards\<close>

text \<open>
  Short of a restart, no handler puts a card into the two queues that was in neither.
\<close>

lemma step_queues_shrink:
  "a \<noteq> Restart \<Longrightarrow> step cards s a = Inr (s', out) \<Longrightarrow>
   set (studyCards s') \<union> set (reviewQueue s') \<subseteq> set (studyCards s) \<union> set (reviewQueue s)"
  by (cases a) (auto simp: session_defs split: if_splits)

lemma run_queues_shrink:
  assumes "Restart \<notin> set acts" and "run cards s acts = Inr (t, outs)"
  shows "set (studyCards t) \<union> set (reviewQueue t) \<subseteq> set (studyCards s) \<union> set (reviewQueue s)"
  using assms
proof (induction acts arbitrary: s outs)
  case Nil
  then show ?case by simp
next
  case (Cons a acts)
  from Cons.prems(2) obtain s' out outs' where st: "step cards s a = Inr (s', out)"
    and rn: "run cards s' acts = Inr (t, outs')"
    by (rule run_Cons_Inr)
  from Cons.prems(1) have nr: "a \<noteq> Restart" and nrs: "Restart \<notin> set acts" by auto
  from step_queues_shrink[OF nr st] Cons.IH[OF nrs rn] show ?case by blast
qed

text \<open>
  C1. Two cards to learn, each flipped and answered "review again": the second, deferred
  on the last position of the pass, is in neither queue afterwards. The next pass shows
  the first card only, and "I know this" on it ends the session with the second card
  never shown again and still unmastered.
\<close>

theorem deferred_last_card_dropped:
  "run [card_a, card_b] (start [card_a, card_b]) [Flip, Review, Flip] =
     Inr (\<lparr>currentIndex = 1, isFlipped = True, studyCards = [card_a, card_b],
            reviewQueue = [card_a], completedCards = []\<rparr>, []) \<and>
   currentCard \<lparr>currentIndex = 1, isFlipped = True, studyCards = [card_a, card_b],
            reviewQueue = [card_a], completedCards = []\<rparr> = Inr (Some card_b) \<and>
   run [card_a, card_b] (start [card_a, card_b]) [Flip, Review, Flip, Review] =
     Inr (\<lparr>currentIndex = 0, isFlipped = False, studyCards = [card_a],
            reviewQueue = [], completedCards = []\<rparr>, []) \<and>
   run [card_a, card_b] (start [card_a, card_b]) [Flip, Review, Flip, Review, Flip, Known] =
     Inr (\<lparr>currentIndex = 0, isFlipped = False, studyCards = [card_a],
            reviewQueue = [], completedCards = [card_a\<lparr>mastered := True\<rparr>]\<rparr>,
          [[card_a\<lparr>mastered := True\<rparr>, card_b]])"
  by (simp add: session_defs card_a_def card_b_def)

subsection \<open>Mastery only goes up\<close>























section \<open>Properties of the reveal timer\<close>

subsection \<open>At most one timeout is pending, and only for a card with its front up\<close>

lemma clearAutoFlipTimer_view [simp]: "view (clearAutoFlipTimer w) = view w"
  and clearAutoFlipTimer_now [simp]: "now_ms (clearAutoFlipTimer w) = now_ms w"
  and clearAutoFlipTimer_handle [simp]: "nextHandle (clearAutoFlipTimer w) = nextHandle w"
  and clearAutoFlipTimer_state [simp]: "autoFlipTimer (clearAutoFlipTimer w) = None"
  by (simp_all add: clearAutoFlipTimer_def split: option.splits)

lemma clearAutoFlipTimer_timers:
  assumes "timers w = [] \<or> (\<exists>h d. timers w = [(h, d)] \<and> autoFlipTimer w = Some h)"
  shows "timers (clearAutoFlipTimer w) = []"
  using assms by (auto simp: clearAutoFlipTimer_def clearTimeout_def split: option.splits)

lemma autoFlipEffect_view [simp]: "view (autoFlipEffect w) = view w"
  and autoFlipEffect_now [simp]: "now_ms (autoFlipEffect w) = now_ms w"
  by (simp_all add: autoFlipEffect_def Let_def)

lemma autoFlipEffect_timers:
  assumes "timers w = [] \<or> (\<exists>h d. timers w = [(h, d)] \<and> autoFlipTimer w = Some h)"
  shows "timers (autoFlipEffect w) =
           (if front_up (view w) then [(nextHandle w, now_ms w + AUTO_FLIP_DELAY)] else [])"
    and "front_up (view w) \<Longrightarrow> autoFlipTimer (autoFlipEffect w) = Some (nextHandle w)"
  using clearAutoFlipTimer_timers[OF assms]
  by (simp_all add: autoFlipEffect_def front_up_def Let_def)

lemma autoFlipEffect_inv:
  assumes "timers w = [] \<or> (\<exists>h d. timers w = [(h, d)] \<and> autoFlipTimer w = Some h)"
  shows "timer_inv (autoFlipEffect w)"
  using autoFlipEffect_timers[OF assms]
  by (auto simp: timer_inv_def front_up_def)

lemma mount_timers: "timers (mount t cards) = []"
  by (simp add: mount_def autoFlipEffect_def clearAutoFlipTimer_def Let_def initial_def
      currentCard_def at_index_def)

lemma mount_inv: "timer_inv (mount t cards)"
  by (simp add: timer_inv_def mount_timers)

lemma commit_inv:
  assumes "timers w = [] \<or> (\<exists>h d. timers w = [(h, d)] \<and> autoFlipTimer w = Some h)"
    and "isFlipped (view w) = isFlipped prev \<Longrightarrow> timer_inv w"
  shows "timer_inv (commit prev w)"
  using assms autoFlipEffect_inv[OF assms(1)]
  by (auto simp: commit_def)

lemma occur_inv:
  assumes "timer_inv w" and "occur cards w e = Some w'"
  shows "timer_inv w'"
proof (cases e)
  case (Act a)
  define w1 where "w1 = (if a = Flip then clearAutoFlipTimer w else w)"
  from assms(2) Act obtain s' out where st: "step cards (view w1) a = Inr (s', out)"
    and w': "w' = commit (view w) (w1\<lparr>view := s'\<rparr>)"
    by (auto simp: w1_def Let_def split: sum.splits)
  have weak: "timers w = [] \<or> (\<exists>h d. timers w = [(h, d)] \<and> autoFlipTimer w = Some h)"
    using assms(1) by (auto simp: timer_inv_def)
  have t1: "timers (w1\<lparr>view := s'\<rparr>) = [] \<or>
      (\<exists>h d. timers (w1\<lparr>view := s'\<rparr>) = [(h, d)] \<and> autoFlipTimer (w1\<lparr>view := s'\<rparr>) = Some h)"
    using weak clearAutoFlipTimer_timers[OF weak] by (auto simp: w1_def)
  have t2: "timer_inv (w1\<lparr>view := s'\<rparr>)" if "isFlipped (view (w1\<lparr>view := s'\<rparr>)) = isFlipped (view w)"
    using that assms(1) clearAutoFlipTimer_timers[OF weak]
    by (auto simp: w1_def timer_inv_def)
  show ?thesis unfolding w' using t1 t2 by (rule commit_inv)
next
  case (Tick dt)
  with assms show ?thesis by (auto simp: timer_inv_def split: if_splits)
next
  case Fire
  from assms(2) Fire obtain p ps where due: "filter (\<lambda>p. snd p \<le> now_ms w) (timers w) = p # ps"
    and w': "w' = commit (view w) (w\<lparr>timers := clearTimeout (fst p) (timers w),
                     view := (view w)\<lparr>isFlipped := True\<rparr>\<rparr>)"
    by (auto split: list.splits)
  from due assms(1) have tw: "timers w = [p]" and fl: "isFlipped (view w) = False"
    by (auto simp: timer_inv_def split: if_splits)
  have t1: "timers (w\<lparr>timers := clearTimeout (fst p) (timers w),
                     view := (view w)\<lparr>isFlipped := True\<rparr>\<rparr>) = []"
    using tw by (simp add: clearTimeout_def)
  show ?thesis unfolding w'
    by (rule commit_inv) (use t1 fl in \<open>auto simp: timer_inv_def\<close>)
qed

lemma occurs_inv:
  assumes "timer_inv w" and "occurs cards w es = Some w'"
  shows "timer_inv w'"
  using assms
proof (induction es arbitrary: w)
  case Nil
  then show ?case by simp
next
  case (Cons e es)
  from Cons.prems(2) obtain w1 where o: "occur cards w e = Some w1"
    and r: "occurs cards w1 es = Some w'"
    by (auto split: option.splits)
  from occur_inv[OF Cons.prems(1) o] r show ?case by (rule Cons.IH)
qed

lemma timer_inv_weak:
  "timer_inv w \<Longrightarrow> timers w = [] \<or> (\<exists>h d. timers w = [(h, d)] \<and> autoFlipTimer w = Some h)"
  by (auto simp: timer_inv_def)

lemma occur_Act_arms:
  assumes "timer_inv w" and "occur cards w (Act a) = Some wa"
    and "currentIndex (view wa) \<noteq> currentIndex (view w) \<or> isFlipped (view wa) \<noteq> isFlipped (view w)"
  shows "timers wa = (if front_up (view wa) then [(nextHandle w, now_ms w + AUTO_FLIP_DELAY)] else [])"
    and "front_up (view wa) \<Longrightarrow> autoFlipTimer wa = Some (nextHandle w)"
proof -
  define w1 where "w1 = (if a = Flip then clearAutoFlipTimer w else w)"
  from assms(2) obtain s' out where st: "step cards (view w1) a = Inr (s', out)"
    and wa: "wa = commit (view w) (w1\<lparr>view := s'\<rparr>)"
    by (auto simp: w1_def Let_def split: sum.splits)
  have weak: "timers w = [] \<or> (\<exists>h d. timers w = [(h, d)] \<and> autoFlipTimer w = Some h)"
    using assms(1) by (rule timer_inv_weak)
  have t1: "timers (w1\<lparr>view := s'\<rparr>) = [] \<or>
      (\<exists>h d. timers (w1\<lparr>view := s'\<rparr>) = [(h, d)] \<and> autoFlipTimer (w1\<lparr>view := s'\<rparr>) = Some h)"
    using weak clearAutoFlipTimer_timers[OF weak] by (auto simp: w1_def)
  have v: "view wa = s'" by (simp add: wa commit_def)
  from assms(3) have "currentIndex s' \<noteq> currentIndex (view w) \<or> isFlipped s' \<noteq> isFlipped (view w)"
    unfolding v .
  then have eff: "wa = autoFlipEffect (w1\<lparr>view := s'\<rparr>)"
    unfolding wa commit_def by auto
  have h: "nextHandle (w1\<lparr>view := s'\<rparr>) = nextHandle w" and n: "now_ms (w1\<lparr>view := s'\<rparr>) = now_ms w"
    by (simp_all add: w1_def)
  show "timers wa = (if front_up (view wa) then [(nextHandle w, now_ms w + AUTO_FLIP_DELAY)] else [])"
    using autoFlipEffect_timers(1)[OF t1] h n by (simp add: eff)
  show "autoFlipTimer wa = Some (nextHandle w)" if "front_up (view wa)"
    using autoFlipEffect_timers(2)[OF t1] h that by (simp add: eff)
qed

lemma occur_Flip_view:
  assumes "occur cards w (Act Flip) = Some wb"
  shows "view wb = (view w)\<lparr>isFlipped := \<not> isFlipped (view w)\<rparr>"
  using assms by (auto simp: Let_def handleCardFlip_def commit_def)

lemma occur_Fire:
  assumes "timer_inv w" and "occur cards w Fire = Some wc"
  shows "isFlipped (view w) = False" and "view wc = (view w)\<lparr>isFlipped := True\<rparr>"
    and "timers wc = []"
proof -
  from assms(2) obtain p ps where due: "filter (\<lambda>p. snd p \<le> now_ms w) (timers w) = p # ps"
    and wc: "wc = commit (view w) (w\<lparr>timers := clearTimeout (fst p) (timers w),
                     view := (view w)\<lparr>isFlipped := True\<rparr>\<rparr>)"
    by (auto split: list.splits)
  from due assms(1) have tw: "timers w = [p]" and fl: "isFlipped (view w) = False"
    and au: "autoFlipTimer w = Some (fst p)"
    by (auto simp: timer_inv_def split: if_splits)
  show "isFlipped (view w) = False" by (rule fl)
  show "view wc = (view w)\<lparr>isFlipped := True\<rparr>" by (simp add: wc commit_def)
  show "timers wc = []"
    using tw fl au
    by (simp add: wc commit_def autoFlipEffect_def clearAutoFlipTimer_def clearTimeout_def Let_def)
qed

text \<open>At mount nothing is armed, whatever the deck.\<close>

lemma mount_arms_nothing:
  "timers (mount t cards) = [] \<and> autoFlipTimer (mount t cards) = None \<and>
   view (mount t cards) = start cards"
  by (simp add: mount_def autoFlipEffect_def clearAutoFlipTimer_def Let_def initial_def
      currentCard_def at_index_def start_def)

subsection \<open>Arming, cancelling and firing\<close>

text \<open>
  C9, as the component has it. In every state a mounted screen reaches: when a user
  action changes the index or the flipped flag and leaves a card with its front up,
  exactly one timeout is pending afterwards, due 5000 ms after the action, and
  \<^verbatim>\<open>autoFlipTimer\<close> holds its handle (this includes flipping a card back to its front);
  a manual flip of the front side leaves the card flipped with no timeout pending; while
  a card is flipped no timeout is pending and none can fire; and when a timeout fires the
  card had its front up, only \<^verbatim>\<open>isFlipped\<close> changes, to true, and no timeout is pending
  afterwards.
\<close>

theorem reveal_timer_rule:
  assumes "occurs cards (mount t cards) evs = Some w"
  shows "(occur cards w (Act a) = Some wa \<and>
          (currentIndex (view wa) \<noteq> currentIndex (view w) \<or>
           isFlipped (view wa) \<noteq> isFlipped (view w)) \<and>
          currentCard (view wa) = Inr (Some c) \<and> isFlipped (view wa) = False \<longrightarrow>
            timers wa = [(nextHandle w, now_ms w + 5000)] \<and>
            autoFlipTimer wa = Some (nextHandle w)) \<and>
         (occur cards w (Act Flip) = Some wb \<and> isFlipped (view w) = False \<longrightarrow>
            isFlipped (view wb) = True \<and> timers wb = []) \<and>
         (isFlipped (view w) = True \<longrightarrow> timers w = [] \<and> occur cards w Fire = None) \<and>
         (occur cards w Fire = Some wc \<longrightarrow>
            isFlipped (view w) = False \<and> view wc = (view w)\<lparr>isFlipped := True\<rparr> \<and>
            timers wc = [])"
proof -
  have inv: "timer_inv w"
    using mount_inv assms by (rule occurs_inv)
  show ?thesis
  proof (intro conjI impI)
    assume a: "occur cards w (Act a) = Some wa \<and>
          (currentIndex (view wa) \<noteq> currentIndex (view w) \<or>
           isFlipped (view wa) \<noteq> isFlipped (view w)) \<and>
          currentCard (view wa) = Inr (Some c) \<and> isFlipped (view wa) = False"
    then have "currentCard (view wa) = Inr (Some c)" and "isFlipped (view wa) = False"
      by blast+
    then have f: "front_up (view wa)" by (simp add: front_up_def)
    from a have o: "occur cards w (Act a) = Some wa"
      and d: "currentIndex (view wa) \<noteq> currentIndex (view w) \<or>
           isFlipped (view wa) \<noteq> isFlipped (view w)" by blast+
    from occur_Act_arms(1)[OF inv o d] f
    show "timers wa = [(nextHandle w, now_ms w + 5000)]" by (simp add: AUTO_FLIP_DELAY_def)
    from occur_Act_arms(2)[OF inv o d f]
    show "autoFlipTimer wa = Some (nextHandle w)" .
  next
    assume b: "occur cards w (Act Flip) = Some wb \<and> isFlipped (view w) = False"
    then have o: "occur cards w (Act Flip) = Some wb" and fl: "isFlipped (view w) = False"
      by blast+
    from occur_Flip_view[OF o] fl show v: "isFlipped (view wb) = True" by simp
    with fl have d: "currentIndex (view wb) \<noteq> currentIndex (view w) \<or>
           isFlipped (view wb) \<noteq> isFlipped (view w)" by simp
    from occur_Act_arms(1)[OF inv o d] v show "timers wb = []"
      by (simp add: front_up_def)
  next
    assume fl: "isFlipped (view w) = True"
    with inv show t: "timers w = []" by (auto simp: timer_inv_def)
    then show "occur cards w Fire = None" by simp
  next
    assume o: "occur cards w Fire = Some wc"
    from occur_Fire[OF inv o]
    show "isFlipped (view w) = False" "view wc = (view w)\<lparr>isFlipped := True\<rparr>" "timers wc = []"
      by simp_all
  qed
qed

theorem reveal_timer_rule_witness:
  "occurs [card_a, card_b] (mount 0 [card_a, card_b]) [Act Flip] = Some screen_a_back \<and>
   occur [card_a, card_b] screen_a_back (Act Known) = Some (screen_b_front 0) \<and>
   currentIndex (view (screen_b_front 0)) \<noteq> currentIndex (view screen_a_back) \<and>
   currentCard (view (screen_b_front 0)) = Inr (Some card_b) \<and>
   isFlipped (view (screen_b_front 0)) = False \<and>
   timers (screen_b_front 0) = [(nextHandle screen_a_back, now_ms screen_a_back + 5000)] \<and>
   isFlipped (view screen_a_back) = True \<and>
   occur [card_a, card_b] screen_a_back Fire = None \<and>
   occurs [card_a, card_b] (mount 0 [card_a, card_b]) [Act Flip, Act Known, Tick 1000] =
     Some (screen_b_front 1000) \<and>
   occur [card_a, card_b] (screen_b_front 1000) (Act Flip) = Some (screen_b_back 1000) \<and>
   timers (screen_b_back 1000) = [] \<and>
   occurs [card_a, card_b] (mount 0 [card_a, card_b]) [Act Flip, Act Known, Tick 5000] =
     Some (screen_b_front 5000) \<and>
   occur [card_a, card_b] (screen_b_front 5000) Fire = Some (screen_b_back 5000) \<and>
   view (screen_b_back 5000) = (view (screen_b_front 5000))\<lparr>isFlipped := True\<rparr>"
proof -
  have r1: "occurs [card_a, card_b] (mount 0 [card_a, card_b]) [Act Flip] = Some screen_a_back"
    by (simp add: timer_defs session_defs card_a_def card_b_def)
  have o1: "occur [card_a, card_b] screen_a_back (Act Known) = Some (screen_b_front 0)"
    by (simp add: timer_defs session_defs card_a_def card_b_def)
  have d1: "currentIndex (view (screen_b_front 0)) \<noteq> currentIndex (view screen_a_back)"
    by (simp add: timer_defs)
  have c1: "currentCard (view (screen_b_front 0)) = Inr (Some card_b)"
    by (simp add: timer_defs session_defs)
  have f1: "isFlipped (view (screen_b_front 0)) = False"
    by (simp add: timer_defs)
  have b1: "isFlipped (view screen_a_back) = True"
    by (simp add: timer_defs)
  have r2: "occurs [card_a, card_b] (mount 0 [card_a, card_b]) [Act Flip, Act Known, Tick 1000] =
      Some (screen_b_front 1000)"
    by (simp add: timer_defs session_defs card_a_def card_b_def)
  have o2: "occur [card_a, card_b] (screen_b_front 1000) (Act Flip) = Some (screen_b_back 1000)"
    by (simp add: timer_defs session_defs card_a_def card_b_def)
  have f2: "isFlipped (view (screen_b_front 1000)) = False"
    by (simp add: timer_defs)
  have r3: "occurs [card_a, card_b] (mount 0 [card_a, card_b]) [Act Flip, Act Known, Tick 5000] =
      Some (screen_b_front 5000)"
    by (simp add: timer_defs session_defs card_a_def card_b_def)
  have o3: "occur [card_a, card_b] (screen_b_front 5000) Fire = Some (screen_b_back 5000)"
    by (simp add: timer_defs session_defs card_a_def card_b_def)
  note t1 = reveal_timer_rule [OF r1, where a = Known and wa = "screen_b_front 0" and c = card_b]
  note t2 = reveal_timer_rule [OF r2, where wb = "screen_b_back 1000"]
  note t3 = reveal_timer_rule [OF r3, where wc = "screen_b_back 5000"]
  from t1 o1 d1 c1 f1
  have a1: "timers (screen_b_front 0) = [(nextHandle screen_a_back, now_ms screen_a_back + 5000)]"
    by blast
  from t1 b1 have a2: "occur [card_a, card_b] screen_a_back Fire = None"
    by blast
  from t2 o2 f2 have a3: "timers (screen_b_back 1000) = []"
    by blast
  from t3 o3
  have a4: "view (screen_b_back 5000) = (view (screen_b_front 5000))\<lparr>isFlipped := True\<rparr>"
    by blast
  from r1 o1 d1 c1 f1 a1 b1 a2 r2 o2 a3 r3 o3 a4 show ?thesis
    by blast
qed

text \<open>
  The claim as worded, that after a manual flip no auto-flip ever fires for that card, is
  false. The second card becomes current at time 0 and a timeout is set for 5000; the
  user flips the card at 1000, which clears it, and flips it back at 2000, which sets a
  new one for 7000; at 7000 it fires and flips the card.
\<close>

theorem flip_back_rearms_reveal_timer:
  "occurs [card_a, card_b] (mount 0 [card_a, card_b]) [Act Flip, Act Known] =
     Some (screen_b_front 0) \<and>
   occurs [card_a, card_b] (mount 0 [card_a, card_b])
       [Act Flip, Act Known, Tick 1000, Act Flip] = Some (screen_b_back 1000) \<and>
   occurs [card_a, card_b] (mount 0 [card_a, card_b])
       [Act Flip, Act Known, Tick 1000, Act Flip, Tick 1000, Act Flip] =
     Some \<lparr>view = \<lparr>currentIndex = 1, isFlipped = False, studyCards = [card_a, card_b],
                   reviewQueue = [], completedCards = [card_a\<lparr>mastered := True\<rparr>]\<rparr>,
           autoFlipTimer = Some 2, timers = [(2, 7000)], nextHandle = 3, now_ms = 2000\<rparr> \<and>
   occurs [card_a, card_b] (mount 0 [card_a, card_b])
       [Act Flip, Act Known, Tick 1000, Act Flip, Tick 1000, Act Flip, Tick 5000, Fire] =
     Some \<lparr>view = \<lparr>currentIndex = 1, isFlipped = True, studyCards = [card_a, card_b],
                   reviewQueue = [], completedCards = [card_a\<lparr>mastered := True\<rparr>]\<rparr>,
           autoFlipTimer = None, timers = [], nextHandle = 3, now_ms = 7000\<rparr>"
  by (simp add: timer_defs session_defs card_a_def card_b_def)

section \<open>Properties of the progress operations\<close>

subsection \<open>The streak values\<close>

lemma or_zero_id [simp]: "or_zero x = x"
  by (simp add: or_zero_def)

lemma toDateString_yesterday:
  assumes "tz (now - 86400000) = tz now"
  shows "toDateString tz (now - 86400000) = toDateString tz now - 1"
proof -
  have "(now - 86400000 + tz now) = (now + tz now) + (-1) * 86400000" by simp
  then have "(now - 86400000 + tz now) div 86400000 = (now + tz now) div 86400000 + (-1)"
    by (simp only: div_mult_self1[of "86400000::int" "now + tz now" "-1"])
  with assms show ?thesis by (simp add: toDateString_def)
qed

lemma toDateString_day_before:
  assumes "tz (now - 86400000) \<le> tz now + 86400000"
  shows "toDateString tz (now - 86400000) \<le> toDateString tz now"
proof -
  from assms have "now - 86400000 + tz (now - 86400000) \<le> now + tz now" by simp
  then show ?thesis unfolding toDateString_def by (rule zdiv_mono1) simp
qed

lemma streakValues_absent:
  "streakValues tz now None = (1, 0)"
  "last_study_date cp = None \<Longrightarrow> streakValues tz now (Some cp) = (1, longest_streak cp)"
  by (simp_all add: streakValues_def)

lemma streakValues_same_day:
  "last_study_date cp = Some lastStudy \<Longrightarrow> toDateString tz lastStudy = toDateString tz now \<Longrightarrow>
   streakValues tz now (Some cp) = (current_streak cp, longest_streak cp)"
  by (simp add: streakValues_def)

lemma streakValues_next_day:
  "last_study_date cp = Some lastStudy \<Longrightarrow> toDateString tz lastStudy \<noteq> toDateString tz now \<Longrightarrow>
   toDateString tz lastStudy = toDateString tz (now - 86400000) \<Longrightarrow>
   streakValues tz now (Some cp) =
     (current_streak cp + 1, max (longest_streak cp) (current_streak cp + 1))"
  by (simp add: streakValues_def Let_def max_def)

lemma streakValues_other_day:
  "last_study_date cp = Some lastStudy \<Longrightarrow> toDateString tz lastStudy \<noteq> toDateString tz now \<Longrightarrow>
   toDateString tz lastStudy \<noteq> toDateString tz (now - 86400000) \<Longrightarrow>
   streakValues tz now (Some cp) = (1, longest_streak cp)"
  by (simp add: streakValues_def)

text \<open>
  Where the zone keeps its offset over the 24 hours before the study, "the day of 24 hours
  ago" is the day before the study's.
\<close>

lemma streakValues_day_before:
  "last_study_date cp = Some lastStudy \<Longrightarrow> tz (now - 86400000) = tz now \<Longrightarrow>
   toDateString tz lastStudy = toDateString tz now - 1 \<Longrightarrow>
   streakValues tz now (Some cp) =
     (current_streak cp + 1, max (longest_streak cp) (current_streak cp + 1))"
  by (simp add: streakValues_def toDateString_yesterday Let_def max_def)

text \<open>
  Where it does not, the two differ: with the clocks put forward in between, a study at
  00:30 the day after one at 00:15 finds neither "today" nor "24 hours ago" on the day of
  the last study, and the streak starts over.
\<close>

lemma streak_across_clock_change:
  "toDateString spring_forward mar10_0015 = toDateString spring_forward mar11_0030 - 1"
  "toDateString spring_forward (mar11_0030 - 86400000) =
     toDateString spring_forward mar11_0030 - 2"
  "streakValues spring_forward mar11_0030
     (Some (new_user_row\<lparr>current_streak := 3, longest_streak := 3,
        last_study_date := Some mar10_0015\<rparr>)) = (1, 3)"
  by (simp_all add: progress_defs)

text \<open>The scenario of the specification: a streak of 3, last studied on 10 January.\<close>

lemma streak_literal_scenario:
  "fst (updateStudyProgress (study_env jan11) 0
          (progress_db (new_user_row\<lparr>current_streak := 3, longest_streak := 3,
              last_study_date := Some jan10\<rparr>))) =
     Inr (new_user_row\<lparr>current_streak := 4, longest_streak := 4,
            last_study_date := Some jan11, updated_at := jan11\<rparr>)"
  "fst (updateStudyProgress (study_env (jan11 + 3600000)) 0
          (progress_db (new_user_row\<lparr>current_streak := 4, longest_streak := 4,
              last_study_date := Some jan11\<rparr>))) =
     Inr (new_user_row\<lparr>current_streak := 4, longest_streak := 4,
            last_study_date := Some (jan11 + 3600000), updated_at := jan11 + 3600000\<rparr>)"
  "fst (updateStudyProgress (study_env jan14) 0
          (progress_db (new_user_row\<lparr>current_streak := 4, longest_streak := 4,
              last_study_date := Some (jan11 + 3600000)\<rparr>))) =
     Inr (new_user_row\<lparr>current_streak := 1, longest_streak := 4,
            last_study_date := Some jan14, updated_at := jan14\<rparr>)"
  by (simp_all add: progress_defs)

text \<open>
  C2. The first study of a new user, whose row holds the zeros \<^verbatim>\<open>getUserProgress\<close>
  inserted: \<^verbatim>\<open>current_streak\<close> becomes 1 and \<^verbatim>\<open>last_study_date\<close> the study instant, as
  claimed, but \<^verbatim>\<open>longest_streak\<close> is written back as 0, not as the maximum of the old
  value and the new streak, which is 1. The block raises \<^verbatim>\<open>longestStreak\<close> only where it
  increments the streak.
\<close>

theorem first_study_leaves_longest_streak_zero:
  "\<exists>p db'. updateStudyProgress (study_env jan10) 2 (progress_db new_user_row) = (Inr p, db') \<and>
      p = new_user_row\<lparr>mastered_cards := 2, current_streak := 1, longest_streak := 0,
            last_study_date := Some jan10, updated_at := jan10\<rparr> \<and>
      longest_streak p \<noteq> max (longest_streak new_user_row) (current_streak p)"
  by (simp add: progress_defs)

text \<open>
  C3. The first study of a user without a row: the row written has \<^verbatim>\<open>current_streak\<close> 1
  and \<^verbatim>\<open>longest_streak\<close> 0, so the current streak exceeds the longest one.
\<close>

theorem first_study_streak_exceeds_longest:
  "\<exists>p db'. updateStudyProgress (study_env jan10) 2
        \<lparr>progress_rows = Map.empty, deck_rows = []\<rparr> = (Inr p, db') \<and>
      current_streak p = 1 \<and> longest_streak p = 0 \<and>
      \<not> current_streak p \<le> longest_streak p"
  by (simp add: progress_defs)

subsection \<open>Failures of the study update\<close>

lemma updateStudyProgress_ok:
  assumes "auth_user env = Some uid" and "upsert_error env = None"
  shows "\<exists>p db'. updateStudyProgress env n db = (Inr p, db') \<and>
           current_streak p =
             fst (streakValues (tz_offset env) (clock env)
                    (if select_fails env then None else progress_rows db uid)) \<and>
           longest_streak p =
             snd (streakValues (tz_offset env) (clock env)
                    (if select_fails env then None else progress_rows db uid)) \<and>
           last_study_date p = Some (clock env)"
  using assms
  by (simp add: updateStudyProgress_def upsert_def Let_def split: prod.splits)

lemma updateStudyProgress_errors:
  assumes "updateStudyProgress env n db = (Inl e, db')"
  shows "(e = Not_authenticated \<and> auth_user env = None) \<or>
         (\<exists>msg. e = Db_error msg \<and> upsert_error env = Some msg)"
  using assms
  by (auto simp: updateStudyProgress_def upsert_def Let_def split: prod.splits option.splits)

text \<open>
  C5, as the function has it. When the stored \<^verbatim>\<open>last_study_date\<close> lies on a later
  calendar day than the study instant, in a zone whose offset 24 hours before the study
  is at most 24 hours more than at the study, the update goes through:
  \<^verbatim>\<open>current_streak\<close> is 1 and \<^verbatim>\<open>last_study_date\<close> becomes the study instant. The update
  fails in two cases only, whatever the dates: nobody is signed in, or the write reports
  an error.
\<close>

theorem backdated_study_restarts_streak:
  "(auth_user env = Some uid \<and> upsert_error env = None \<and> select_fails env = False \<and>
    progress_rows db uid = Some prev \<and> last_study_date prev = Some lastStudy \<and>
    tz_offset env (clock env - 86400000) \<le> tz_offset env (clock env) + 86400000 \<and>
    toDateString (tz_offset env) (clock env) < toDateString (tz_offset env) lastStudy \<longrightarrow>
      (\<exists>p db'. updateStudyProgress env n db = (Inr p, db') \<and> current_streak p = 1 \<and>
         last_study_date p = Some (clock env))) \<and>
   (updateStudyProgress env2 n2 db2 = (Inl e, db2') \<longrightarrow>
      (e = Not_authenticated \<and> auth_user env2 = None) \<or>
      (\<exists>msg. e = Db_error msg \<and> upsert_error env2 = Some msg))"
proof (intro conjI impI)
  assume a: "auth_user env = Some uid \<and> upsert_error env = None \<and> select_fails env = False \<and>
    progress_rows db uid = Some prev \<and> last_study_date prev = Some lastStudy \<and>
    tz_offset env (clock env - 86400000) \<le> tz_offset env (clock env) + 86400000 \<and>
    toDateString (tz_offset env) (clock env) < toDateString (tz_offset env) lastStudy"
  then have "toDateString (tz_offset env) (clock env - 86400000) \<le>
      toDateString (tz_offset env) (clock env)"
    by (intro toDateString_day_before) simp
  with a have sv: "streakValues (tz_offset env) (clock env) (Some prev) = (1, longest_streak prev)"
    by (intro streakValues_other_day[of prev lastStudy]) auto
  from a obtain p db' where "updateStudyProgress env n db = (Inr p, db')"
    and "current_streak p = fst (streakValues (tz_offset env) (clock env)
                    (if select_fails env then None else progress_rows db uid))"
    and "last_study_date p = Some (clock env)"
    using updateStudyProgress_ok[of env uid n db] by blast
  with a sv show "\<exists>p db'. updateStudyProgress env n db = (Inr p, db') \<and> current_streak p = 1 \<and>
         last_study_date p = Some (clock env)"
    by simp
next
  assume "updateStudyProgress env2 n2 db2 = (Inl e, db2')"
  then show "(e = Not_authenticated \<and> auth_user env2 = None) \<or>
      (\<exists>msg. e = Db_error msg \<and> upsert_error env2 = Some msg)"
    by (rule updateStudyProgress_errors)
qed

theorem backdated_study_restarts_streak_witness:
  "auth_user (study_env jan10) = Some ''u1'' \<and> upsert_error (study_env jan10) = None \<and>
   select_fails (study_env jan10) = False \<and>
   progress_rows (progress_db (new_user_row\<lparr>current_streak := 3, longest_streak := 5,
       last_study_date := Some jan11\<rparr>)) ''u1'' =
     Some (new_user_row\<lparr>current_streak := 3, longest_streak := 5,
       last_study_date := Some jan11\<rparr>) \<and>
   tz_offset (study_env jan10) (clock (study_env jan10) - 86400000) \<le>
     tz_offset (study_env jan10) (clock (study_env jan10)) + 86400000 \<and>
   toDateString (tz_offset (study_env jan10)) (clock (study_env jan10)) <
     toDateString (tz_offset (study_env jan10)) jan11 \<and>
   (\<exists>p db'. updateStudyProgress (study_env jan10) 0
        (progress_db (new_user_row\<lparr>current_streak := 3, longest_streak := 5,
           last_study_date := Some jan11\<rparr>)) = (Inr p, db') \<and>
      current_streak p = 1 \<and> last_study_date p = Some (clock (study_env jan10))) \<and>
   updateStudyProgress ((study_env jan10)\<lparr>auth_user := None\<rparr>) 0 (progress_db new_user_row) =
     (Inl Not_authenticated, progress_db new_user_row)"
proof -
  have h: "auth_user (study_env jan10) = Some ''u1''" "upsert_error (study_env jan10) = None"
    "select_fails (study_env jan10) = False"
    by (simp_all add: study_env_def)
  have r: "progress_rows (progress_db (new_user_row\<lparr>current_streak := 3, longest_streak := 5,
       last_study_date := Some jan11\<rparr>)) ''u1'' =
     Some (new_user_row\<lparr>current_streak := 3, longest_streak := 5,
       last_study_date := Some jan11\<rparr>)"
    by (simp add: progress_db_def)
  have l: "last_study_date (new_user_row\<lparr>current_streak := 3, longest_streak := 5,
       last_study_date := Some jan11\<rparr>) = Some jan11"
    by simp
  have z: "tz_offset (study_env jan10) (clock (study_env jan10) - 86400000) \<le>
     tz_offset (study_env jan10) (clock (study_env jan10)) + 86400000"
    by (simp add: study_env_def)
  have d: "toDateString (tz_offset (study_env jan10)) (clock (study_env jan10)) <
     toDateString (tz_offset (study_env jan10)) jan11"
    by (simp add: progress_defs)
  have f: "updateStudyProgress ((study_env jan10)\<lparr>auth_user := None\<rparr>) 0
       (progress_db new_user_row) = (Inl Not_authenticated, progress_db new_user_row)"
    by (simp add: updateStudyProgress_def study_env_def)
  note t = backdated_study_restarts_streak [where env = "study_env jan10" and uid = "''u1''"
      and db = "progress_db (new_user_row\<lparr>current_streak := 3, longest_streak := 5,
           last_study_date := Some jan11\<rparr>)"
      and prev = "new_user_row\<lparr>current_streak := 3, longest_streak := 5,
           last_study_date := Some jan11\<rparr>"
      and lastStudy = jan11 and n = 0
      and ?env2.0 = "(study_env jan10)\<lparr>auth_user := None\<rparr>" and ?n2.0 = 0
      and ?db2.0 = "progress_db new_user_row" and e = Not_authenticated
      and db2' = "progress_db new_user_row"]
  from t h r l z d
  have c: "\<exists>p db'. updateStudyProgress (study_env jan10) 0
        (progress_db (new_user_row\<lparr>current_streak := 3, longest_streak := 5,
           last_study_date := Some jan11\<rparr>)) = (Inr p, db') \<and>
      current_streak p = 1 \<and> last_study_date p = Some (clock (study_env jan10))"
    by blast
  from h r z d c f show ?thesis by blast
qed

text \<open>
  The claim as worded, that such an input is refused with a condition of its own, is
  false: last studied on 11 January and studying on 10 January, the update returns a row
  with the streak back at 1.
\<close>

theorem backdated_study_is_not_refused:
  "toDateString (tz_offset (study_env jan10)) jan10 <
     toDateString (tz_offset (study_env jan10)) jan11 \<and>
   fst (updateStudyProgress (study_env jan10) 0
          (progress_db (new_user_row\<lparr>current_streak := 3, longest_streak := 5,
              last_study_date := Some jan11\<rparr>))) =
     Inr (new_user_row\<lparr>current_streak := 1, longest_streak := 5,
            last_study_date := Some jan10, updated_at := jan10\<rparr>)"
  by (simp add: progress_defs)

subsection \<open>Recomputing the totals\<close>

lemma foldl_sum:
  fixes f :: "'a \<Rightarrow> int"
  shows "foldl (\<lambda>sum d. sum + f d) a ds = a + sum_list (map f ds)"
  by (induction ds arbitrary: a) simp_all

lemma syncUserProgress_ok:
  assumes "syncUserProgress env db = (Inr p, db')"
  shows "\<exists>uid. auth_user env = Some uid \<and> deck_rows db' = deck_rows db \<and>
           progress_rows db' uid = Some p \<and>
           total_cards p = (if select_fails env then 0
              else sum_list (map card_count (filter (\<lambda>d. deck_user_id d = uid) (deck_rows db)))) \<and>
           mastered_cards p = (if select_fails env then 0
              else sum_list (map mastered_count (filter (\<lambda>d. deck_user_id d = uid) (deck_rows db))))"
  using assms
  by (auto simp: syncUserProgress_def upsert_def Let_def foldl_sum split: option.splits)


lemma syncUserProgress_returns:
  assumes "auth_user env = Some uid" and "upsert_error env = None"
  shows "\<exists>p db'. syncUserProgress env db = (Inr p, db')"
  using assms by (simp add: syncUserProgress_def upsert_def Let_def)

text \<open>
  C6. Two calls of \<^verbatim>\<open>syncUserProgress\<close> in a row by the same signed-in user, the second
  on the database the first left behind, both reading the decks alike and neither write
  reporting an error: both calls return a row, the two rows agree on \<^verbatim>\<open>total_cards\<close> and
  \<^verbatim>\<open>mastered_cards\<close>, the second row is the one stored, and the decks are as they were.
\<close>

theorem sync_idempotent:
  assumes "auth_user env1 = Some uid" and "auth_user env2 = Some uid"
    and "upsert_error env1 = None" and "upsert_error env2 = None"
    and "select_fails env2 = select_fails env1"
  shows "\<exists>p1 db1 p2 db2.
           syncUserProgress env1 db = (Inr p1, db1) \<and>
           syncUserProgress env2 db1 = (Inr p2, db2) \<and>
           total_cards p2 = total_cards p1 \<and> mastered_cards p2 = mastered_cards p1 \<and>
           progress_rows db2 uid = Some p2 \<and> deck_rows db2 = deck_rows db"
proof -
  obtain p1 db1 where c1: "syncUserProgress env1 db = (Inr p1, db1)"
    using syncUserProgress_returns[OF assms(1,3)] by blast
  obtain p2 db2 where c2: "syncUserProgress env2 db1 = (Inr p2, db2)"
    using syncUserProgress_returns[OF assms(2,4)] by blast
  from syncUserProgress_ok[OF c1] syncUserProgress_ok[OF c2] assms(1,2,5)
  have "total_cards p2 = total_cards p1 \<and> mastered_cards p2 = mastered_cards p1 \<and>
           progress_rows db2 uid = Some p2 \<and> deck_rows db2 = deck_rows db"
    by auto
  with c1 c2 show ?thesis by blast
qed

theorem sync_idempotent_witness:
  "auth_user (study_env jan10) = Some ''u1'' \<and> auth_user (study_env jan11) = Some ''u1'' \<and>
   upsert_error (study_env jan10) = None \<and> upsert_error (study_env jan11) = None \<and>
   select_fails (study_env jan11) = select_fails (study_env jan10) \<and>
   fst (syncUserProgress (study_env jan10) example_decks) =
     Inr \<lparr>user_id = ''u1'', total_cards = 8, mastered_cards = 3, current_streak = 0,
          longest_streak = 0, last_study_date = None, created_at = jan10,
          updated_at = jan10\<rparr> \<and>
   fst (syncUserProgress (study_env jan11) (snd (syncUserProgress (study_env jan10) example_decks))) =
     Inr \<lparr>user_id = ''u1'', total_cards = 8, mastered_cards = 3, current_streak = 0,
          longest_streak = 0, last_study_date = None, created_at = jan10,
          updated_at = jan11\<rparr> \<and>
   (\<exists>p1 db1 p2 db2.
      syncUserProgress (study_env jan10) example_decks = (Inr p1, db1) \<and>
      syncUserProgress (study_env jan11) db1 = (Inr p2, db2) \<and>
      total_cards p2 = total_cards p1 \<and> mastered_cards p2 = mastered_cards p1 \<and>
      progress_rows db2 ''u1'' = Some p2 \<and> deck_rows db2 = deck_rows example_decks)"
proof -
  have a: "auth_user (study_env jan10) = Some ''u1''" "auth_user (study_env jan11) = Some ''u1''"
    "upsert_error (study_env jan10) = None" "upsert_error (study_env jan11) = None"
    "select_fails (study_env jan11) = select_fails (study_env jan10)"
    by (simp_all add: study_env_def)
  have e1: "fst (syncUserProgress (study_env jan10) example_decks) =
     Inr \<lparr>user_id = ''u1'', total_cards = 8, mastered_cards = 3, current_streak = 0,
          longest_streak = 0, last_study_date = None, created_at = jan10,
          updated_at = jan10\<rparr>"
    by (simp add: progress_defs)
  have e2: "fst (syncUserProgress (study_env jan11)
       (snd (syncUserProgress (study_env jan10) example_decks))) =
     Inr \<lparr>user_id = ''u1'', total_cards = 8, mastered_cards = 3, current_streak = 0,
          longest_streak = 0, last_study_date = None, created_at = jan10,
          updated_at = jan11\<rparr>"
    by (simp add: progress_defs)
  note t = sync_idempotent [OF a, where db = example_decks]
  from a e1 e2 t show ?thesis by blast
qed

end
